theory Spec2Isabelle
  imports Complex_Main "HOL-Library.Sublist" "HOL-Library.Log_Nat"
begin

section \<open>Python values and exceptions\<close>

text \<open>
  A Python \<^verbatim>\<open>str\<close> is a sequence of Unicode code points. The currency names of
  \<^verbatim>\<open>currency_map\<close> lie outside ASCII, so a string is a list of code points here;
  \<open>ascii\<close> turns an ASCII literal into one.
\<close>

type_synonym pystr = "nat list"

definition ascii :: "string \<Rightarrow> pystr" where
  "ascii s = map of_char s"

text \<open>The exceptions the modelled statements can raise.\<close>

datatype pyerr =
    Timeout
  | ConnectionError
  | ParserRejectedMarkup
  | JSONDecodeError
  | TypeError
  | AttributeError
  | IndexError
  | KeyError
  | YFException

section \<open>64-bit floats\<close>

text \<open>
  The prices are numpy \<^verbatim>\<open>float64\<close> values, and lines 122 and 123 compute with them
  in IEEE 754 binary64 arithmetic, rounding to nearest with ties to even; numpy raises
  nothing there, a division by zero gives an infinity or \<^verbatim>\<open>nan\<close>. A float is a
  finite number \<open>Val r\<close> (\<open>Val 0\<close> is \<^verbatim>\<open>0.0\<close>), the negative zero, an infinity
  (\<open>Inf True\<close> is the negative one) or \<^verbatim>\<open>nan\<close>. The prices of a data frame are
  numbers a float can hold, and every operation rounds its exact result to such a
  number.
\<close>

datatype f64 = Val rat | NegZero | Inf bool | NaN

fun negative :: "f64 \<Rightarrow> bool" where
  "negative (Val r) = (r < 0)"
| "negative NegZero = True"
| "negative (Inf neg) = neg"
| "negative NaN = False"

fun is_zero :: "f64 \<Rightarrow> bool" where
  "is_zero (Val r) = (r = 0)"
| "is_zero NegZero = True"
| "is_zero (Inf neg) = False"
| "is_zero NaN = False"

fun rat_of :: "f64 \<Rightarrow> rat" where
  "rat_of (Val r) = r"
| "rat_of NegZero = 0"
| "rat_of (Inf neg) = 0"
| "rat_of NaN = 0"

definition zero_of :: "bool \<Rightarrow> f64" where
  "zero_of neg = (if neg then NegZero else Val 0)"

text \<open>The power \<open>2\<^sup>k\<close> for an integer \<open>k\<close>.\<close>

definition pow2 :: "int \<Rightarrow> rat" where
  "pow2 k = (if 0 \<le> k then 2 ^ nat k else 1 / 2 ^ nat (- k))"

text \<open>
  The binary exponent of a positive number: the \<open>e\<close> with \<open>2\<^sup>e \<le> a < 2\<^sup>e\<^sup>+\<^sup>1\<close>
  (\<open>bitlen n\<close> is the number of binary digits of \<open>n\<close>).
\<close>

definition ilog2 :: "rat \<Rightarrow> int" where
  "ilog2 a = (if 1 \<le> a then bitlen \<lfloor>a\<rfloor> - 1 else - bitlen (\<lceil>1 / a\<rceil> - 1))"

text \<open>The nearest integer, a tie going to the even one.\<close>

definition round_half_even :: "rat \<Rightarrow> int" where
  "round_half_even x =
     (if x - of_int \<lfloor>x\<rfloor> < 1 / 2 then \<lfloor>x\<rfloor>
      else if 1 / 2 < x - of_int \<lfloor>x\<rfloor> then \<lfloor>x\<rfloor> + 1
      else if even \<lfloor>x\<rfloor> then \<lfloor>x\<rfloor> else \<lfloor>x\<rfloor> + 1)"

text \<open>
  The spacing of the floats around a positive number: 53 binary digits, and from
  \<open>2\<^sup>-\<^sup>1\<^sup>0\<^sup>2\<^sup>2\<close> downwards the fixed spacing \<open>2\<^sup>-\<^sup>1\<^sup>0\<^sup>7\<^sup>4\<close> of the subnormal numbers.
\<close>

definition ulp :: "rat \<Rightarrow> rat" where
  "ulp a = pow2 (max (ilog2 a) (- 1022) - 52)"

definition nearest :: "rat \<Rightarrow> rat" where
  "nearest a = of_int (round_half_even (a / ulp a)) * ulp a"

text \<open>
  The float an exact non-zero result is rounded to: an infinity from \<open>2\<^sup>1\<^sup>0\<^sup>2\<^sup>4\<close> on,
  a zero of the result's sign when the result is too small.
\<close>

definition rnd64 :: "rat \<Rightarrow> f64" where
  "rnd64 r =
     (if r = 0 then Val 0
      else if 2 ^ 1024 \<le> nearest \<bar>r\<bar> then Inf (r < 0)
      else if nearest \<bar>r\<bar> = 0 then zero_of (r < 0)
      else Val (sgn r * nearest \<bar>r\<bar>))"

text \<open>\<^verbatim>\<open>x - y\<close>\<close>

fun float_sub :: "f64 \<Rightarrow> f64 \<Rightarrow> f64" where
  "float_sub NaN y = NaN"
| "float_sub x NaN = NaN"
| "float_sub (Inf s) (Inf t) = (if s = t then NaN else Inf s)"
| "float_sub (Inf s) y = Inf s"
| "float_sub x (Inf t) = Inf (\<not> t)"
| "float_sub x y =
     (if rat_of x - rat_of y = 0
      then (if x = NegZero \<and> y = Val 0 then NegZero else Val 0)
      else rnd64 (rat_of x - rat_of y))"

text \<open>\<^verbatim>\<open>x / y\<close>\<close>

fun truediv :: "f64 \<Rightarrow> f64 \<Rightarrow> f64" where
  "truediv NaN y = NaN"
| "truediv x NaN = NaN"
| "truediv (Inf s) (Inf t) = NaN"
| "truediv (Inf s) y = Inf (s \<noteq> negative y)"
| "truediv x (Inf t) = zero_of (negative x \<noteq> t)"
| "truediv x y =
     (if is_zero y then (if is_zero x then NaN else Inf (negative x \<noteq> negative y))
      else if is_zero x then zero_of (negative x \<noteq> negative y)
      else rnd64 (rat_of x / rat_of y))"

text \<open>\<^verbatim>\<open>x * y\<close>\<close>

fun float_mul :: "f64 \<Rightarrow> f64 \<Rightarrow> f64" where
  "float_mul NaN y = NaN"
| "float_mul x NaN = NaN"
| "float_mul (Inf s) y = (if is_zero y then NaN else Inf (s \<noteq> negative y))"
| "float_mul x (Inf t) = (if is_zero x then NaN else Inf (negative x \<noteq> t))"
| "float_mul x y =
     (if is_zero x \<or> is_zero y then zero_of (negative x \<noteq> negative y)
      else rnd64 (rat_of x * rat_of y))"

section \<open>The price history and the displayed metrics (lines 120 to 123)\<close>

text \<open>
  \<^verbatim>\<open>hist_data\<close> is the data frame \<^verbatim>\<open>yfinance\<close> returns: one row per sample, indexed
  by its timestamp, with a \<^verbatim>\<open>Close\<close> column of floats.
\<close>

record sample =
  timestamp :: int
  Close :: f64

type_synonym dataframe = "sample list"

definition empty :: "dataframe \<Rightarrow> bool" where
  "empty hist_data = (hist_data = [])"

text \<open>
  \<^verbatim>\<open>series.iloc[i]\<close>: a negative position counts from the end, a position out of
  range raises \<^verbatim>\<open>IndexError\<close>.
\<close>

definition iloc :: "'a list \<Rightarrow> int \<Rightarrow> pyerr + 'a" where
  "iloc xs i =
     (if 0 \<le> i \<and> i < int (length xs) then Inr (xs ! nat i)
      else if i < 0 \<and> - int (length xs) \<le> i then Inr (xs ! nat (int (length xs) + i))
      else Inl IndexError)"

text \<open>
  \<^verbatim>\<open>current_price = hist_data['Close'].iloc[-1] if not hist_data.empty else 0\<close>

  The constant of the \<^verbatim>\<open>else\<close> branch is the integer 0, written \<open>Val 0\<close>: the
  statements below only subtract it from itself and compare it with 0, which an
  integer 0 and a float 0.0 answer alike.
\<close>

definition current_price :: "dataframe \<Rightarrow> pyerr + f64" where
  "current_price hist_data =
     (if \<not> empty hist_data then iloc (map Close hist_data) (- 1) else Inr (Val 0))"

text \<open>
  \<^verbatim>\<open>prev_price = hist_data['Close'].iloc[0] if not hist_data.empty else 0\<close>
\<close>

definition prev_price :: "dataframe \<Rightarrow> pyerr + f64" where
  "prev_price hist_data =
     (if \<not> empty hist_data then iloc (map Close hist_data) 0 else Inr (Val 0))"

text \<open>\<^verbatim>\<open>delta = current_price - prev_price\<close>\<close>

definition delta :: "dataframe \<Rightarrow> pyerr + f64" where
  "delta hist_data =
     (case current_price hist_data of
        Inl e \<Rightarrow> Inl e
      | Inr c \<Rightarrow>
          (case prev_price hist_data of
             Inl e \<Rightarrow> Inl e
           | Inr p \<Rightarrow> Inr (float_sub c p)))"

text \<open>
  \<^verbatim>\<open>delta_percent = (delta / prev_price) * 100 if prev_price != 0 else 0\<close>

  \<^verbatim>\<open>prev_price != 0\<close> is false of both zeros and true of \<^verbatim>\<open>nan\<close>.
\<close>

definition delta_percent :: "dataframe \<Rightarrow> pyerr + f64" where
  "delta_percent hist_data =
     (case delta hist_data of
        Inl e \<Rightarrow> Inl e
      | Inr d \<Rightarrow>
          (case prev_price hist_data of
             Inl e \<Rightarrow> Inl e
           | Inr p \<Rightarrow>
               if \<not> is_zero p then Inr (float_mul (truediv d p) (Val 100))
               else Inr (Val 0)))"

text \<open>
  The percentage with no guard, as claim C2 words it: the absolute change divided by
  the reference, times 100. The specification's own sentence adds the guard.
\<close>

definition unguarded_deltaPct :: "f64 \<Rightarrow> f64 \<Rightarrow> f64" where
  "unguarded_deltaPct deltaAbs reference = float_mul (truediv deltaAbs reference) (Val 100)"

section \<open>Strings\<close>

text \<open>
  \<^verbatim>\<open>c.isspace()\<close>: the code points Python counts as whitespace, which are the ones
  \<^verbatim>\<open>str.strip()\<close> removes.
\<close>

definition isspace :: "nat \<Rightarrow> bool" where
  "isspace c =
     (c \<in> {9, 10, 11, 12, 13, 28, 29, 30, 31, 32, 133, 160, 5760}
      \<or> (8192 \<le> c \<and> c \<le> 8202)
      \<or> c \<in> {8232, 8233, 8239, 8287, 12288})"

text \<open>\<^verbatim>\<open>s.strip()\<close>: whitespace removed at both ends.\<close>

definition strip :: "pystr \<Rightarrow> pystr" where
  "strip s = rev (dropWhile isspace (rev (dropWhile isspace s)))"

text \<open>
  \<^verbatim>\<open>t in s\<close> for two strings holds when \<open>t\<close> occurs in \<open>s\<close> as a contiguous run:
  \<^term>\<open>sublist t s\<close>.
\<close>

section \<open>The parsed HTML document\<close>

text \<open>
  What \<^verbatim>\<open>BeautifulSoup(response.text, 'html.parser')\<close> builds: a tree of tags, of
  strings that count as text, and of strings that do not (comments, declarations,
  script and style content). The root is the document itself.
\<close>

datatype html =
    Text pystr
  | Comment pystr
  | Tag pystr "html list"

text \<open>The nodes below a node, in document order (a node before its children).\<close>

fun descendants :: "html \<Rightarrow> html list" where
  "descendants (Tag name children) = concat (map (\<lambda>c. c # descendants c) children)"
| "descendants (Text s) = []"
| "descendants (Comment s) = []"

fun is_tag :: "pystr \<Rightarrow> html \<Rightarrow> bool" where
  "is_tag name (Tag n children) = (n = name)"
| "is_tag name (Text s) = False"
| "is_tag name (Comment s) = False"

text \<open>\<^verbatim>\<open>node.find_all(name)\<close>: the tags of that name below the node, in document order.\<close>

definition find_all :: "html \<Rightarrow> pystr \<Rightarrow> html list" where
  "find_all node name = filter (is_tag name) (descendants node)"

text \<open>\<^verbatim>\<open>node.text\<close>: the text strings below the node, joined.\<close>

fun get_text :: "html \<Rightarrow> pystr" where
  "get_text (Text s) = s"
| "get_text (Comment s) = []"
| "get_text (Tag name children) = concat (map get_text children)"

text \<open>\<^verbatim>\<open>xs[i]\<close> on a list, for the literal positions the code uses.\<close>

definition getitem :: "'a list \<Rightarrow> nat \<Rightarrow> pyerr + 'a" where
  "getitem xs i = (if i < length xs then Inr (xs ! i) else Inl IndexError)"

section \<open>Decoded JSON\<close>

text \<open>
  What \<^verbatim>\<open>response.json()\<close> returns: \<^verbatim>\<open>None\<close>, a bool, an int, a float, a string, a
  list or a dict with string keys (kept in insertion order).
\<close>

datatype pyval =
    PNone
  | PBool bool
  | PInt int
  | PFloat real
  | PStr pystr
  | PList "pyval list"
  | PDict "(pystr \<times> pyval) list"

text \<open>
  \<^verbatim>\<open>x in c\<close> where \<open>x\<close> is a string or \<^verbatim>\<open>None\<close>, as \<^verbatim>\<open>target_name\<close> and \<^verbatim>\<open>'body'\<close>
  are. A string container takes a string only; a list compares its elements with \<open>x\<close>;
  a dict looks among its keys; anything else is not iterable.
\<close>

fun py_in :: "pystr option \<Rightarrow> pyval \<Rightarrow> pyerr + bool" where
  "py_in (Some t) (PStr s) = Inr (sublist t s)"
| "py_in None (PStr s) = Inl TypeError"
| "py_in (Some t) (PList vs) = Inr (PStr t \<in> set vs)"
| "py_in None (PList vs) = Inr (PNone \<in> set vs)"
| "py_in (Some t) (PDict kvs) = Inr (t \<in> set (map fst kvs))"
| "py_in None (PDict kvs) = Inr False"
| "py_in x PNone = Inl TypeError"
| "py_in x (PBool b) = Inl TypeError"
| "py_in x (PInt i) = Inl TypeError"
| "py_in x (PFloat r) = Inl TypeError"

text \<open>\<^verbatim>\<open>obj[key]\<close> with a string key: only a dict can be read so.\<close>

fun py_getitem :: "pyval \<Rightarrow> pystr \<Rightarrow> pyerr + pyval" where
  "py_getitem (PDict kvs) key =
     (case map_of kvs key of None \<Rightarrow> Inl KeyError | Some v \<Rightarrow> Inr v)"
| "py_getitem PNone key = Inl TypeError"
| "py_getitem (PBool b) key = Inl TypeError"
| "py_getitem (PInt i) key = Inl TypeError"
| "py_getitem (PFloat r) key = Inl TypeError"
| "py_getitem (PStr s) key = Inl TypeError"
| "py_getitem (PList vs) key = Inl TypeError"

text \<open>
  What a \<^verbatim>\<open>for\<close> loop runs over: the elements of a list, the keys of a dict, the
  characters of a string.
\<close>

fun py_iter :: "pyval \<Rightarrow> pyerr + pyval list" where
  "py_iter (PList vs) = Inr vs"
| "py_iter (PDict kvs) = Inr (map (\<lambda>kv. PStr (fst kv)) kvs)"
| "py_iter (PStr s) = Inr (map (\<lambda>c. PStr [c]) s)"
| "py_iter PNone = Inl TypeError"
| "py_iter (PBool b) = Inl TypeError"
| "py_iter (PInt i) = Inl TypeError"
| "py_iter (PFloat r) = Inl TypeError"

text \<open>\<^verbatim>\<open>obj.get(key, default)\<close>: a method of dicts only.\<close>

fun py_get :: "pyval \<Rightarrow> pystr \<Rightarrow> pyval \<Rightarrow> pyerr + pyval" where
  "py_get (PDict kvs) key dflt =
     Inr (case map_of kvs key of None \<Rightarrow> dflt | Some v \<Rightarrow> v)"
| "py_get PNone key dflt = Inl AttributeError"
| "py_get (PBool b) key dflt = Inl AttributeError"
| "py_get (PInt i) key dflt = Inl AttributeError"
| "py_get (PFloat r) key dflt = Inl AttributeError"
| "py_get (PStr s) key dflt = Inl AttributeError"
| "py_get (PList vs) key dflt = Inl AttributeError"

section \<open>BankRateFetcher\<close>

text \<open>
  \<^verbatim>\<open>self.currency_map\<close>: the code of a currency to its Chinese name
  (U+6B27 U+5143, U+7F8E U+5143, U+6E2F U+5E01, U+82F1 U+9551, U+65E5 U+5143).
\<close>

definition currency_map :: "pystr \<rightharpoonup> pystr" where
  "currency_map =
     map_of
       [(ascii ''EUR'', [27431, 20803]),
        (ascii ''USD'', [32654, 20803]),
        (ascii ''HKD'', [28207, 24065]),
        (ascii ''GBP'', [33521, 38225]),
        (ascii ''JPY'', [26085, 20803])]"

text \<open>The supported currency codes.\<close>

definition supported :: "pystr set" where
  "supported = {ascii ''EUR'', ascii ''USD'', ascii ''HKD'', ascii ''GBP'', ascii ''JPY''}"

text \<open>
  What \<^verbatim>\<open>requests.get\<close> returned, seen through what the code reads of it: the status,
  the document \<^verbatim>\<open>BeautifulSoup\<close> makes of the text, and the value of
  \<^verbatim>\<open>response.json()\<close>; either of the two parsers may raise. The call itself may raise
  (a timeout after 5 seconds, a connection error), so an upstream's answer is a
  \<open>pyerr + response\<close>.
\<close>

record response =
  status_code :: int
  soup :: "pyerr + html"
  json :: "pyerr + pyval"

text \<open>The dict both providers return; \<^verbatim>\<open>None\<close> is the absent marker.\<close>

record quote =
  spot_sell :: pyval
  cash_sell :: pyval

text \<open>
  \<^verbatim>\<open>try: body  except: return None\<close>. The bare \<^verbatim>\<open>except\<close> catches every exception.
\<close>

definition try_except :: "pyerr + 'a option \<Rightarrow> pyerr + 'a option" where
  "try_except body = (case body of Inl e \<Rightarrow> Inr None | Inr r \<Rightarrow> Inr r)"

subsection \<open>get\_boc\_rates\<close>

text \<open>
  Line 45, the test on a row:
  \<^verbatim>\<open>len(cols) > 0 and target_name in cols[0].text.strip()\<close>
\<close>

definition row_matches :: "pystr \<Rightarrow> html \<Rightarrow> bool" where
  "row_matches target_name row =
     (case find_all row (ascii ''td'') of
        [] \<Rightarrow> False
      | c0 # cols \<Rightarrow> sublist target_name (strip (get_text c0)))"

text \<open>
  Line 46, the dict returned for a row:
  \<^verbatim>\<open>{'spot_sell': cols[3].text.strip(), 'cash_sell': cols[4].text.strip()}\<close>
\<close>

definition row_quote :: "html \<Rightarrow> pyerr + quote" where
  "row_quote row =
     (case getitem (find_all row (ascii ''td'')) 3 of
        Inl e \<Rightarrow> Inl e
      | Inr c3 \<Rightarrow>
          (case getitem (find_all row (ascii ''td'')) 4 of
             Inl e \<Rightarrow> Inl e
           | Inr c4 \<Rightarrow>
               Inr \<lparr>spot_sell = PStr (strip (get_text c3)),
                    cash_sell = PStr (strip (get_text c4))\<rparr>))"

text \<open>
  The inner loop, lines 43 to 46. \<open>Inr None\<close>: the loop ended with no \<^verbatim>\<open>return\<close>.
\<close>

fun scan_rows :: "pystr \<Rightarrow> html list \<Rightarrow> pyerr + quote option" where
  "scan_rows target_name [] = Inr None"
| "scan_rows target_name (row # rows) =
     (if row_matches target_name row
      then (case row_quote row of Inl e \<Rightarrow> Inl e | Inr q \<Rightarrow> Inr (Some q))
      else scan_rows target_name rows)"

text \<open>The outer loop, lines 41 to 47.\<close>

fun scan_tables :: "pystr \<Rightarrow> html list \<Rightarrow> pyerr + quote option" where
  "scan_tables target_name [] = Inr None"
| "scan_tables target_name (table # tables) =
     (case scan_rows target_name (find_all table (ascii ''tr'')) of
        Inl e \<Rightarrow> Inl e
      | Inr (Some q) \<Rightarrow> Inr (Some q)
      | Inr None \<Rightarrow> scan_tables target_name tables)"

text \<open>The body of the \<^verbatim>\<open>try\<close>, lines 34 to 47.\<close>

definition boc_body :: "pystr \<Rightarrow> pyerr + response \<Rightarrow> pyerr + quote option" where
  "boc_body currency_code upstream =
     (case upstream of
        Inl e \<Rightarrow> Inl e
      | Inr response \<Rightarrow>
          (case soup response of
             Inl e \<Rightarrow> Inl e
           | Inr doc \<Rightarrow>
               (case currency_map currency_code of
                  None \<Rightarrow> Inr None
                | Some target_name \<Rightarrow>
                    if target_name = [] then Inr None
                    else scan_tables target_name (find_all doc (ascii ''table'')))))"

definition get_boc_rates :: "pystr \<Rightarrow> pyerr + response \<Rightarrow> pyerr + quote option" where
  "get_boc_rates currency_code upstream = try_except (boc_body currency_code upstream)"

subsection \<open>get\_cmb\_rates\<close>

text \<open>Line 64, the test on a record: \<^verbatim>\<open>target_name in item.get('ccyNbr', '')\<close>\<close>

definition item_matches :: "pystr option \<Rightarrow> pyval \<Rightarrow> pyerr + bool" where
  "item_matches target_name item =
     (case py_get item (ascii ''ccyNbr'') (PStr []) of
        Inl e \<Rightarrow> Inl e
      | Inr name \<Rightarrow> py_in target_name name)"

text \<open>
  Line 65, the dict returned for a record:
  \<^verbatim>\<open>{'spot_sell': item.get('rthOfr', 'N/A'), 'cash_sell': item.get('rtcOfr', 'N/A')}\<close>
\<close>

definition item_quote :: "pyval \<Rightarrow> pyerr + quote" where
  "item_quote item =
     (case py_get item (ascii ''rthOfr'') (PStr (ascii ''N/A'')) of
        Inl e \<Rightarrow> Inl e
      | Inr spot \<Rightarrow>
          (case py_get item (ascii ''rtcOfr'') (PStr (ascii ''N/A'')) of
             Inl e \<Rightarrow> Inl e
           | Inr cash \<Rightarrow> Inr \<lparr>spot_sell = spot, cash_sell = cash\<rparr>))"

text \<open>The loop, lines 63 to 65.\<close>

fun scan_items :: "pystr option \<Rightarrow> pyval list \<Rightarrow> pyerr + quote option" where
  "scan_items target_name [] = Inr None"
| "scan_items target_name (item # items) =
     (case item_matches target_name item of
        Inl e \<Rightarrow> Inl e
      | Inr True \<Rightarrow> (case item_quote item of Inl e \<Rightarrow> Inl e | Inr q \<Rightarrow> Inr (Some q))
      | Inr False \<Rightarrow> scan_items target_name items)"

text \<open>The body of the \<^verbatim>\<open>try\<close>, lines 52 to 66.\<close>

definition cmb_body :: "pystr \<Rightarrow> pyerr + response \<Rightarrow> pyerr + quote option" where
  "cmb_body currency_code upstream =
     (case upstream of
        Inl e \<Rightarrow> Inl e
      | Inr response \<Rightarrow>
          if status_code response \<noteq> 200 then Inr None
          else
            (case json response of
               Inl e \<Rightarrow> Inl e
             | Inr data \<Rightarrow>
                 (case py_in (Some (ascii ''body'')) data of
                    Inl e \<Rightarrow> Inl e
                  | Inr False \<Rightarrow> Inr None
                  | Inr True \<Rightarrow>
                      (case py_getitem data (ascii ''body'') of
                         Inl e \<Rightarrow> Inl e
                       | Inr body \<Rightarrow>
                           (case py_iter body of
                              Inl e \<Rightarrow> Inl e
                            | Inr items \<Rightarrow>
                                scan_items (currency_map currency_code) items)))))"

definition get_cmb_rates :: "pystr \<Rightarrow> pyerr + response \<Rightarrow> pyerr + quote option" where
  "get_cmb_rates currency_code upstream = try_except (cmb_body currency_code upstream)"

section \<open>The script: the live data (lines 74 to 115)\<close>

text \<open>\<^verbatim>\<open>currencies\<close>: the code of a currency to its ticker and its English name.\<close>

definition currencies :: "pystr \<rightharpoonup> pystr \<times> pystr" where
  "currencies =
     map_of
       [(ascii ''EUR'', (ascii ''EURCNY=X'', ascii ''Euro'')),
        (ascii ''USD'', (ascii ''CNY=X'', ascii ''US Dollar'')),
        (ascii ''HKD'', (ascii ''HKDCNY=X'', ascii ''Hong Kong Dollar'')),
        (ascii ''GBP'', (ascii ''GBPCNY=X'', ascii ''British Pound'')),
        (ascii ''JPY'', (ascii ''JPYCNY=X'', ascii ''Japanese Yen''))]"

text \<open>\<^verbatim>\<open>time_ranges\<close>: a window preset to its period and its sampling interval.\<close>

definition time_ranges :: "pystr \<rightharpoonup> pystr \<times> pystr" where
  "time_ranges =
     map_of
       [(ascii ''1h'', (ascii ''1d'', ascii ''1m'')),
        (ascii ''24h'', (ascii ''5d'', ascii ''1m'')),
        (ascii ''48h'', (ascii ''5d'', ascii ''2m'')),
        (ascii ''7d'', (ascii ''1mo'', ascii ''15m'')),
        (ascii ''1m'', (ascii ''3mo'', ascii ''60m''))]"

text \<open>
  The three upstreams as one run of the script finds them:
  \<^verbatim>\<open>yf.Ticker(ticker).history(period=period, interval=interval)\<close>, which returns a data
  frame or raises, and the answers of the two bank sites.
\<close>

record upstreams =
  yf_history :: "pystr \<Rightarrow> pystr \<Rightarrow> pystr \<Rightarrow> pyerr + dataframe"
  boc_site :: "pyerr + response"
  cmb_api :: "pyerr + response"

text \<open>
  \<^verbatim>\<open>get_history\<close> returns what the library call returns and has no handler of its
  own. The cache in front of it only repeats values already returned.
\<close>

definition get_history ::
  "upstreams \<Rightarrow> pystr \<Rightarrow> pystr \<Rightarrow> pystr \<Rightarrow> pyerr + dataframe" where
  "get_history world ticker period interval = yf_history world ticker period interval"

record live =
  history :: dataframe
  boc_rate :: "quote option"
  cmb_rate :: "quote option"

text \<open>
  Lines 83 and 109 to 115: the look-ups of the two selections, then the three fetches
  in the order the script makes them. An exception of any statement ends the run.
  This is a run with the auto-refresh box unticked: with the box ticked, lines 95 to
  97 sleep and restart the script before line 100 is reached.
\<close>

definition live_data :: "upstreams \<Rightarrow> pystr \<Rightarrow> pystr \<Rightarrow> pyerr + live" where
  "live_data world selected_currency selected_range =
     (case currencies selected_currency of
        None \<Rightarrow> Inl KeyError
      | Some currency_info \<Rightarrow>
          (case time_ranges selected_range of
             None \<Rightarrow> Inl KeyError
           | Some preset \<Rightarrow>
               (case get_history world (fst currency_info) (fst preset) (snd preset) of
                  Inl e \<Rightarrow> Inl e
                | Inr hist \<Rightarrow>
                    (case get_boc_rates selected_currency (boc_site world) of
                       Inl e \<Rightarrow> Inl e
                     | Inr boc \<Rightarrow>
                         (case get_cmb_rates selected_currency (cmb_api world) of
                            Inl e \<Rightarrow> Inl e
                          | Inr cmb \<Rightarrow>
                              Inr \<lparr>history = hist, boc_rate = boc, cmb_rate = cmb\<rparr>)))))"

section \<open>Rows in document order, and sample answers\<close>

text \<open>
  The rows in the order the two loops of \<^verbatim>\<open>get_boc_rates\<close> come to them: table after
  table, and the rows of each table in turn.
\<close>

definition visited_rows :: "html \<Rightarrow> html list" where
  "visited_rows doc =
     concat (map (\<lambda>table. find_all table (ascii ''tr'')) (find_all doc (ascii ''table'')))"

text \<open>
  The rows of the document as a reader meets them: the \<^verbatim>\<open>tr\<close> tags below a node that
  lie inside a table, in document order, each once. \<open>inside\<close> says that the node is
  itself inside a table or is one.
\<close>

fun rows_below :: "bool \<Rightarrow> html \<Rightarrow> html list" where
  "rows_below inside (Tag name children) =
     concat (map (\<lambda>c. (if inside \<and> is_tag (ascii ''tr'') c then [c] else [])
                       @ rows_below (inside \<or> is_tag (ascii ''table'') c) c) children)"
| "rows_below inside (Text s) = []"
| "rows_below inside (Comment s) = []"

definition document_rows :: "html \<Rightarrow> html list" where
  "document_rows doc = rows_below False doc"

text \<open>
  The test the specification words: the first column of the row contains the name.
  The code tests the stripped text instead (\<open>row_matches\<close>).
\<close>

definition first_cell_contains :: "pystr \<Rightarrow> html \<Rightarrow> bool" where
  "first_cell_contains name row =
     (case find_all row (ascii ''td'') of
        [] \<Rightarrow> False
      | c0 # cols \<Rightarrow> sublist name (get_text c0))"

text \<open>
  Sample answers, for the concrete runs below: a page with one table whose rows hold
  plain cells, an answer that carries a page, and an answer that carries JSON.
\<close>

definition cell :: "pystr \<Rightarrow> html" where
  "cell s = Tag (ascii ''td'') [Text s]"

definition table_row :: "pystr list \<Rightarrow> html" where
  "table_row texts = Tag (ascii ''tr'') (map cell texts)"

definition page :: "html list \<Rightarrow> html" where
  "page rows = Tag (ascii ''[document]'') [Tag (ascii ''body'') [Tag (ascii ''table'') rows]]"

definition html_answer :: "html \<Rightarrow> response" where
  "html_answer doc = \<lparr>status_code = 200, soup = Inr doc, json = Inl JSONDecodeError\<rparr>"

definition json_answer :: "pyval \<Rightarrow> response" where
  "json_answer data =
     \<lparr>status_code = 200, soup = Inr (Tag (ascii ''[document]'') []), json = Inr data\<rparr>"

section \<open>The trend of the price history\<close>

lemma floor_rat_numeral_div:
  "\<lfloor>numeral a / numeral b :: rat\<rfloor> = numeral a div numeral b"
  using floor_divide_of_int_eq[of "numeral a" "numeral b", where ?'a = rat] by simp

lemma ceiling_rat_numeral_div:
  "\<lceil>numeral a / numeral b :: rat\<rceil> = - (- numeral a div numeral b)"
  using ceiling_divide_eq_div[of "numeral a" "numeral b", where ?'a = rat] by simp

lemmas float_simps =
  rnd64_def nearest_def ulp_def pow2_def ilog2_def bitlen_def compute_floorlog
  round_half_even_def zero_of_def floor_rat_numeral_div ceiling_rat_numeral_div

text \<open>
  The rounding does what its name says: \<open>ilog2\<close> is the binary exponent, and the
  rounded number lies within half a spacing of the exact one.
\<close>

lemma pow2_nonneg_exp: "0 \<le> k \<Longrightarrow> pow2 k = 2 ^ nat k"
  by (simp add: pow2_def)

lemma pow2_neg_exp: "k \<le> 0 \<Longrightarrow> pow2 k = 1 / 2 ^ nat (- k)"
  by (cases "k = 0") (simp_all add: pow2_def)

lemma pow2_pos: "0 < pow2 k"
  by (simp add: pow2_def)

lemma ilog2_bounds:
  assumes "0 < a"
  shows "pow2 (ilog2 a) \<le> a \<and> a < pow2 (ilog2 a + 1)"
proof (cases "1 \<le> a")
  case True
  define n where "n = \<lfloor>a\<rfloor>"
  have n: "1 \<le> n" "of_int n \<le> a" "a < of_int n + 1"
  proof -
    show "1 \<le> n" using True by (simp add: n_def le_floor_iff)
    show "of_int n \<le> a" unfolding n_def by linarith
    show "a < of_int n + 1" unfolding n_def by linarith
  qed
  define b where "b = bitlen n"
  have b: "2 ^ nat (b - 1) \<le> n" "n < 2 ^ nat b"
    using bitlen_bounds[of n] n(1) by (auto simp: b_def)
  have "b \<noteq> 0" using n(1) by (simp add: b_def bitlen_eq_zero_iff)
  moreover have "0 \<le> b" by (simp add: b_def bitlen_nonneg)
  ultimately have b1: "1 \<le> b" by linarith
  have e: "ilog2 a = b - 1" using True by (simp add: ilog2_def n_def b_def)
  have "(of_int (2 ^ nat (b - 1)) :: rat) \<le> of_int n"
    using b(1) by (simp only: of_int_le_iff)
  then have lo: "(2::rat) ^ nat (b - 1) \<le> of_int n"
    by (simp only: of_int_power of_int_numeral)
  have "n + 1 \<le> 2 ^ nat b" using b(2) by linarith
  then have "(of_int (n + 1) :: rat) \<le> of_int (2 ^ nat b)"
    by (simp only: of_int_le_iff)
  then have hi: "(of_int n + 1 :: rat) \<le> 2 ^ nat b"
    by (simp only: of_int_power of_int_numeral of_int_add of_int_1)
  have p1: "pow2 (ilog2 a) = 2 ^ nat (b - 1)"
    using b1 by (simp add: e pow2_nonneg_exp)
  have p2: "pow2 (ilog2 a + 1) = 2 ^ nat b"
    using b1 by (simp add: e pow2_nonneg_exp)
  from lo n(2) have "pow2 (ilog2 a) \<le> a" unfolding p1 by (rule order_trans)
  moreover from n(3) hi have "a < pow2 (ilog2 a + 1)" unfolding p2 by (rule less_le_trans)
  ultimately show ?thesis ..
next
  case False
  define y where "y = 1 / a"
  have y: "1 < y" using False assms by (simp add: y_def)
  have ya: "1 / y = a" by (simp add: y_def)
  define m where "m = \<lceil>y\<rceil> - 1"
  have m: "1 \<le> m" "of_int m < y" "y \<le> of_int m + 1"
  proof -
    have "1 < \<lceil>y\<rceil>" using y by (simp add: less_ceiling_iff)
    then show "1 \<le> m" by (simp add: m_def)
    show "of_int m < y" unfolding m_def by linarith
    show "y \<le> of_int m + 1" unfolding m_def by linarith
  qed
  define b where "b = bitlen m"
  have b: "2 ^ nat (b - 1) \<le> m" "m < 2 ^ nat b"
    using bitlen_bounds[of m] m(1) by (auto simp: b_def)
  have "b \<noteq> 0" using m(1) by (simp add: b_def bitlen_eq_zero_iff)
  moreover have "0 \<le> b" by (simp add: b_def bitlen_nonneg)
  ultimately have b1: "1 \<le> b" by linarith
  have e: "ilog2 a = - b" using False by (simp add: ilog2_def m_def b_def y_def)
  have "(of_int (2 ^ nat (b - 1)) :: rat) \<le> of_int m"
    using b(1) by (simp only: of_int_le_iff)
  then have lo: "(2::rat) ^ nat (b - 1) \<le> of_int m"
    by (simp only: of_int_power of_int_numeral)
  have "m + 1 \<le> 2 ^ nat b" using b(2) by linarith
  then have "(of_int (m + 1) :: rat) \<le> of_int (2 ^ nat b)"
    by (simp only: of_int_le_iff)
  then have hi: "(of_int m + 1 :: rat) \<le> 2 ^ nat b"
    by (simp only: of_int_power of_int_numeral of_int_add of_int_1)
  have p1: "pow2 (ilog2 a) = 1 / 2 ^ nat b"
    using b1 by (simp add: e pow2_neg_exp)
  have "nat (- (1 - b)) = nat (b - 1)" by simp
  then have p2: "pow2 (ilog2 a + 1) = 1 / 2 ^ nat (b - 1)"
    using b1 by (simp add: e pow2_neg_exp[of "1 - b"])
  from m(3) hi have "y \<le> 2 ^ nat b" by (rule order_trans)
  then have "1 / 2 ^ nat b \<le> 1 / y"
    using y by (simp add: frac_le)
  then have "1 / 2 ^ nat b \<le> a" by (simp only: ya)
  then have "pow2 (ilog2 a) \<le> a" by (simp only: p1)
  moreover from lo m(2) have "2 ^ nat (b - 1) < y" by (rule le_less_trans)
  then have "1 / y < 1 / 2 ^ nat (b - 1)"
    by (simp add: frac_less2)
  then have "a < 1 / 2 ^ nat (b - 1)" by (simp only: ya)
  then have "a < pow2 (ilog2 a + 1)" by (simp only: p2)
  ultimately show ?thesis ..
qed

lemma round_half_even_near: "\<bar>of_int (round_half_even x) - x\<bar> \<le> 1 / 2"
proof -
  have "of_int \<lfloor>x\<rfloor> \<le> x" "x < of_int \<lfloor>x\<rfloor> + 1" by linarith+
  then show ?thesis by (auto simp: round_half_even_def abs_le_iff)
qed

lemma ulp_pos: "0 < ulp a"
  by (simp add: ulp_def pow2_pos)

lemma nearest_near: "\<bar>nearest a - a\<bar> \<le> ulp a / 2"
proof -
  have "nearest a - a = (of_int (round_half_even (a / ulp a)) - a / ulp a) * ulp a"
    using ulp_pos[of a] by (simp add: nearest_def left_diff_distrib)
  then have "\<bar>nearest a - a\<bar> = \<bar>of_int (round_half_even (a / ulp a)) - a / ulp a\<bar> * ulp a"
    using ulp_pos[of a] by (simp add: abs_mult)
  also have "\<dots> \<le> (1 / 2) * ulp a"
    using round_half_even_near[of "a / ulp a"] ulp_pos[of a]
    by (intro mult_right_mono) simp_all
  finally show ?thesis by simp
qed

lemma iloc_last: "xs \<noteq> [] \<Longrightarrow> iloc xs (- 1) = Inr (last xs)"
  by (cases xs rule: rev_cases) (simp_all add: iloc_def nth_append)

lemma iloc_first: "xs \<noteq> [] \<Longrightarrow> iloc xs 0 = Inr (hd xs)"
  by (cases xs) (simp_all add: iloc_def)

lemma current_price_nonempty:
  "hist_data \<noteq> [] \<Longrightarrow> current_price hist_data = Inr (Close (last hist_data))"
  by (simp add: current_price_def empty_def iloc_last last_map)

lemma prev_price_nonempty:
  "hist_data \<noteq> [] \<Longrightarrow> prev_price hist_data = Inr (Close (hd hist_data))"
  by (simp add: prev_price_def empty_def iloc_first hd_map)

lemma delta_nonempty:
  "hist_data \<noteq> [] \<Longrightarrow>
   delta hist_data = Inr (float_sub (Close (last hist_data)) (Close (hd hist_data)))"
  by (simp add: delta_def current_price_nonempty prev_price_nonempty)

text \<open>
  Claim C5. On the empty history every metric is the sentinel 0, and none of the four
  statements raises: no position is read and nothing is divided.
\<close>

theorem trend_empty:
  "current_price [] = Inr (Val 0) \<and> prev_price [] = Inr (Val 0) \<and> delta [] = Inr (Val 0)
   \<and> delta_percent [] = Inr (Val 0)"
  by (simp add: current_price_def prev_price_def delta_def delta_percent_def empty_def)

text \<open>
  Claim C6. When the first sample of a non-empty history has price 0 (either zero of
  the floats), the percentage is 0: the guard skips the division, so the result is
  neither an infinity nor \<^verbatim>\<open>nan\<close>, and nothing is raised.
\<close>

theorem delta_percent_zero_reference:
  assumes "hist_data \<noteq> []" and "is_zero (Close (hd hist_data))"
  shows "delta_percent hist_data = Inr (Val 0)"
  using assms by (simp add: delta_percent_def delta_nonempty prev_price_nonempty)

theorem delta_percent_zero_reference_witness:
  "delta_percent [\<lparr>timestamp = 0, Close = Val 0\<rparr>, \<lparr>timestamp = 1, Close = Val 3\<rparr>]
     = Inr (Val 0)
   \<and> delta_percent [\<lparr>timestamp = 0, Close = NegZero\<rparr>, \<lparr>timestamp = 1, Close = Val 3\<rparr>]
     = Inr (Val 0)"
  using delta_percent_zero_reference
    [of "[\<lparr>timestamp = 0, Close = Val 0\<rparr>, \<lparr>timestamp = 1, Close = Val 3\<rparr>]"]
    delta_percent_zero_reference
    [of "[\<lparr>timestamp = 0, Close = NegZero\<rparr>, \<lparr>timestamp = 1, Close = Val 3\<rparr>]"]
  by simp

text \<open>
  Claim C2, as stated, fails where the first price is 0: the code answers 0 there,
  while the change divided by the reference, times 100, is an infinity.
\<close>

theorem delta_percent_unguarded_counterexample:
  "delta_percent [\<lparr>timestamp = 0, Close = Val 0\<rparr>, \<lparr>timestamp = 1, Close = Val 3\<rparr>]
     = Inr (Val 0)
   \<and> delta [\<lparr>timestamp = 0, Close = Val 0\<rparr>, \<lparr>timestamp = 1, Close = Val 3\<rparr>]
     = Inr (Val 3)
   \<and> prev_price [\<lparr>timestamp = 0, Close = Val 0\<rparr>, \<lparr>timestamp = 1, Close = Val 3\<rparr>]
     = Inr (Val 0)
   \<and> unguarded_deltaPct (Val 3) (Val 0) = Inf False
   \<and> delta_percent [\<lparr>timestamp = 0, Close = Val 0\<rparr>, \<lparr>timestamp = 1, Close = Val 3\<rparr>]
     \<noteq> Inr (unguarded_deltaPct (Val 3) (Val 0))"
  by (simp add: delta_percent_def delta_def current_price_def prev_price_def empty_def
      iloc_def unguarded_deltaPct_def float_simps)

text \<open>
  Claim C2, amended. For every non-empty history: the current price is the price of
  the last sample, the reference that of the first, the absolute change their float
  difference, and the percentage the change divided by the reference, times 100, in
  float arithmetic when the reference is not 0, and 0 when the reference is 0.
\<close>

theorem trend_nonempty:
  assumes "hist_data \<noteq> []"
  shows "current_price hist_data = Inr (Close (last hist_data))
    \<and> prev_price hist_data = Inr (Close (hd hist_data))
    \<and> delta hist_data = Inr (float_sub (Close (last hist_data)) (Close (hd hist_data)))
    \<and> delta_percent hist_data =
        Inr (if is_zero (Close (hd hist_data)) then Val 0
             else unguarded_deltaPct
                    (float_sub (Close (last hist_data)) (Close (hd hist_data)))
                    (Close (hd hist_data)))"
  using assms
  by (simp add: current_price_nonempty prev_price_nonempty delta_nonempty
      delta_percent_def unguarded_deltaPct_def)

theorem trend_nonempty_witness:
  "current_price [\<lparr>timestamp = 0, Close = Val 100\<rparr>, \<lparr>timestamp = 1, Close = Val 105\<rparr>]
     = Inr (Val 105)
   \<and> prev_price [\<lparr>timestamp = 0, Close = Val 100\<rparr>, \<lparr>timestamp = 1, Close = Val 105\<rparr>]
     = Inr (Val 100)
   \<and> delta [\<lparr>timestamp = 0, Close = Val 100\<rparr>, \<lparr>timestamp = 1, Close = Val 105\<rparr>]
     = Inr (Val 5)
   \<and> delta_percent [\<lparr>timestamp = 0, Close = Val 100\<rparr>, \<lparr>timestamp = 1, Close = Val 105\<rparr>]
     = Inr (Val 5)"
proof -
  have s: "float_sub (Val 105) (Val 100) = Val 5"
    by (simp add: float_simps)
  have d: "truediv (Val 5) (Val 100) = Val (3602879701896397 / 72057594037927936)"
    by (simp add: float_simps)
  have m: "float_mul (Val (3602879701896397 / 72057594037927936)) (Val 100) = Val 5"
    by (simp add: float_simps)
  from trend_nonempty
    [of "[\<lparr>timestamp = 0, Close = Val 100\<rparr>, \<lparr>timestamp = 1, Close = Val 105\<rparr>]"]
  show ?thesis
    by (simp add: unguarded_deltaPct_def s d m
        del: float_sub.simps truediv.simps float_mul.simps)
qed

section \<open>Facts about strings and searches\<close>

lemmas run_simps =
  cell_def table_row_def page_def html_answer_def json_answer_def ascii_def
  find_all_def row_matches_def row_quote_def getitem_def strip_def isspace_def
  first_cell_contains_def document_rows_def currency_map_def sublist_code
  get_boc_rates_def boc_body_def get_cmb_rates_def cmb_body_def try_except_def
  item_matches_def item_quote_def

lemma currency_map_None: "currency_map c = None \<longleftrightarrow> c \<notin> supported"
  by (auto simp: currency_map_def supported_def)

lemma currency_map_name:
  "currency_map c = Some n \<Longrightarrow> n \<noteq> [] \<and> \<not> isspace (hd n) \<and> \<not> isspace (last n)"
  by (auto simp: currency_map_def isspace_def split: if_splits)

lemma dropWhile_keeps:
  assumes "n \<noteq> []" "\<not> P (hd n)"
  shows "\<exists>a'. dropWhile P (a @ n @ b) = a' @ n @ b"
proof (induction a)
  case Nil
  from assms show ?case by (cases n) auto
next
  case (Cons x a)
  then show ?case by (cases "P x") auto
qed

text \<open>
  A word that neither starts nor ends with whitespace occurs in a string exactly when
  it occurs in the stripped string.
\<close>

lemma sublist_strip:
  assumes "n \<noteq> []" "\<not> isspace (hd n)" "\<not> isspace (last n)"
  shows "sublist n (strip s) \<longleftrightarrow> sublist n s"
proof
  assume "sublist n (strip s)"
  moreover have "sublist (strip s) s"
  proof -
    have "suffix (dropWhile isspace s) s" by (rule suffix_dropWhile)
    moreover have "prefix (strip s) (dropWhile isspace s)"
      unfolding strip_def
      by (metis suffix_dropWhile suffix_to_prefix rev_rev_ident)
    ultimately show ?thesis
      by (meson prefix_imp_sublist suffix_imp_sublist sublist_order.order_trans)
  qed
  ultimately show "sublist n s" by (rule sublist_order.order_trans)
next
  assume "sublist n s"
  then obtain a b where s: "s = a @ n @ b" by (auto simp: sublist_def)
  from dropWhile_keeps[of n isspace a b] assms obtain a' where
    1: "dropWhile isspace s = a' @ n @ b" unfolding s by blast
  have "rev n \<noteq> []" "\<not> isspace (hd (rev n))" using assms by (simp_all add: hd_rev)
  from dropWhile_keeps[of "rev n" isspace "rev b" "rev a'"] this obtain b' where
    "dropWhile isspace (rev b @ rev n @ rev a') = b' @ rev n @ rev a'" by blast
  then have "strip s = a' @ n @ rev b'"
    unfolding strip_def 1 by simp
  then show "sublist n (strip s)" by simp
qed

lemma row_matches_contains:
  "currency_map c = Some n \<Longrightarrow> row_matches n = first_cell_contains n"
  by (auto simp: fun_eq_iff row_matches_def first_cell_contains_def sublist_strip
      dest!: currency_map_name split: list.splits)

lemma find_append_case:
  "find P (xs @ ys) = (case find P xs of None \<Rightarrow> find P ys | Some x \<Rightarrow> Some x)"
  by (induction xs) auto

lemma find_first:
  "\<forall>x\<in>set pre. \<not> P x \<Longrightarrow> P r \<Longrightarrow> find P (pre @ r # post) = Some r"
  by (induction pre) auto

lemma find_concat_cong:
  "(\<And>c. c \<in> set cs \<Longrightarrow> find P (f c) = find P (g c)) \<Longrightarrow>
   find P (concat (map f cs)) = find P (concat (map g cs))"
proof (induction cs)
  case Nil
  show ?case by simp
next
  case (Cons a cs)
  have "find P (concat (map f cs)) = find P (concat (map g cs))"
    using Cons by simp
  moreover have "find P (f a) = find P (g a)"
    using Cons.prems by simp
  ultimately show ?case by (simp add: find_append_case split: option.splits)
qed

lemma find_append_subset:
  "set ys \<subseteq> set xs \<Longrightarrow> find P (xs @ ys) = find P xs"
proof (cases "find P xs")
  case None
  assume "set ys \<subseteq> set xs"
  with None have "find P ys = None" by (auto simp: find_None_iff)
  with None show ?thesis by (simp add: find_append_case)
next
  case (Some x)
  then show ?thesis by (simp add: find_append_case)
qed

section \<open>The loops of get\_boc\_rates as a search\<close>

lemma scan_rows_find:
  "scan_rows n rows =
     (case find (row_matches n) rows of
        None \<Rightarrow> Inr None
      | Some r \<Rightarrow> (case row_quote r of Inl e \<Rightarrow> Inl e | Inr q \<Rightarrow> Inr (Some q)))"
  by (induction rows) auto

lemma scan_rows_None: "scan_rows n rows = Inr None \<longleftrightarrow> find (row_matches n) rows = None"
  by (induction rows) (auto split: sum.splits)

lemma scan_tables_find:
  "scan_tables n tables =
     (case find (row_matches n) (concat (map (\<lambda>t. find_all t (ascii ''tr'')) tables)) of
        None \<Rightarrow> Inr None
      | Some r \<Rightarrow> (case row_quote r of Inl e \<Rightarrow> Inl e | Inr q \<Rightarrow> Inr (Some q)))"
proof (induction tables)
  case Nil
  then show ?case by simp
next
  case (Cons t ts)
  show ?case
  proof (cases "find (row_matches n) (find_all t (ascii ''tr''))")
    case None
    then have "scan_rows n (find_all t (ascii ''tr'')) = Inr None"
      by (simp add: scan_rows_None)
    with None Cons show ?thesis by (simp add: find_append_case)
  next
    case (Some r)
    then show ?thesis
      by (simp add: find_append_case scan_rows_find split: sum.splits)
  qed
qed

text \<open>
  The loops meet a row of a nested table more than once, but the first row they meet
  that passes a test is the first such row of the document.
\<close>

lemma descendants_trans:
  "t \<in> set (descendants node) \<Longrightarrow> set (descendants t) \<subseteq> set (descendants node)"
proof (induction node)
  case (Tag name children)
  from Tag.prems obtain c where c: "c \<in> set children" "t = c \<or> t \<in> set (descendants c)"
    by auto
  then have "set (descendants t) \<subseteq> set (descendants c)"
    using Tag.IH by auto
  with c(1) show ?case by auto
qed simp_all

lemma rows_below_inside:
  "rows_below True node = find_all node (ascii ''tr'')"
proof (induction node)
  case (Tag name children)
  have "rows_below True (Tag name children) =
      concat (map (\<lambda>c. (if is_tag (ascii ''tr'') c then [c] else []) @ rows_below True c) children)"
    by simp
  also have "\<dots> = concat (map (\<lambda>c. filter (is_tag (ascii ''tr'')) (c # descendants c)) children)"
    using Tag.IH by (intro arg_cong[where f = concat] map_cong) (auto simp: find_all_def)
  also have "\<dots> = find_all (Tag name children) (ascii ''tr'')"
    by (simp add: find_all_def filter_concat comp_def)
  finally show ?case .
qed (simp_all add: find_all_def)

lemma visited_subset:
  "set (visited_rows node) \<subseteq> set (find_all node (ascii ''tr''))"
  using descendants_trans by (fastforce simp: visited_rows_def find_all_def)

lemma visited_rows_Tag:
  "visited_rows (Tag name children) =
     concat (map (\<lambda>c. (if is_tag (ascii ''table'') c then find_all c (ascii ''tr'') else [])
                       @ visited_rows c) children)"
  by (induction children) (simp_all add: visited_rows_def find_all_def)

lemma find_visited_rows:
  "find P (visited_rows node) = find P (document_rows node)"
  unfolding document_rows_def
proof (induction node)
  case (Tag name children)
  have "find P (visited_rows (Tag name children)) =
      find P (concat (map (\<lambda>c. (if is_tag (ascii ''table'') c then find_all c (ascii ''tr'') else [])
                       @ visited_rows c) children))"
    by (simp only: visited_rows_Tag)
  also have "\<dots> = find P (concat (map (\<lambda>c. rows_below (is_tag (ascii ''table'') c) c) children))"
  proof (rule find_concat_cong)
    fix c assume c: "c \<in> set children"
    show "find P ((if is_tag (ascii ''table'') c then find_all c (ascii ''tr'') else []) @ visited_rows c)
        = find P (rows_below (is_tag (ascii ''table'') c) c)"
    proof (cases "is_tag (ascii ''table'') c")
      case True
      then show ?thesis
        by (simp add: rows_below_inside find_append_subset visited_subset)
    next
      case False
      then show ?thesis using Tag.IH[OF c] by simp
    qed
  qed
  also have "\<dots> = find P (rows_below False (Tag name children))"
    by simp
  finally show ?case .
qed (simp_all add: visited_rows_def find_all_def)

lemma row_quote_columns:
  "row_quote row =
     (if 5 \<le> length (find_all row (ascii ''td''))
      then Inr \<lparr>spot_sell = PStr (strip (get_text (find_all row (ascii ''td'') ! 3))),
                cash_sell = PStr (strip (get_text (find_all row (ascii ''td'') ! 4)))\<rparr>
      else Inl IndexError)"
  by (auto simp: row_quote_def getitem_def)

lemma get_boc_rates_find:
  assumes "currency_map c = Some n" and "soup response = Inr doc"
  shows "get_boc_rates c (Inr response) =
     (case find (first_cell_contains n) (document_rows doc) of
        None \<Rightarrow> Inr None
      | Some row \<Rightarrow> (case row_quote row of Inl e \<Rightarrow> Inr None | Inr q \<Rightarrow> Inr (Some q)))"
proof -
  have n: "n \<noteq> []" using assms(1) by (auto dest: currency_map_name)
  have "boc_body c (Inr response) = scan_tables n (find_all doc (ascii ''table''))"
    using assms n by (simp add: boc_body_def)
  also have "\<dots> =
     (case find (row_matches n) (visited_rows doc) of
        None \<Rightarrow> Inr None
      | Some r \<Rightarrow> (case row_quote r of Inl e \<Rightarrow> Inl e | Inr q \<Rightarrow> Inr (Some q)))"
    by (simp add: scan_tables_find visited_rows_def)
  finally show ?thesis
    by (simp add: get_boc_rates_def try_except_def find_visited_rows
        row_matches_contains[OF assms(1)] split: option.splits sum.splits)
qed

section \<open>The loop of get\_cmb\_rates\<close>

lemma scan_items_first:
  "\<forall>x\<in>set pre. item_matches t x = Inr False \<Longrightarrow> item_matches t item = Inr True \<Longrightarrow>
   scan_items t (pre @ item # post) =
     (case item_quote item of Inl e \<Rightarrow> Inl e | Inr q \<Rightarrow> Inr (Some q))"
  by (induction pre) auto

lemma item_matches_None:
  "item_matches None item = Inr True \<Longrightarrow>
   \<exists>rec names. item = PDict rec \<and> map_of rec (ascii ''ccyNbr'') = Some (PList names)
      \<and> PNone \<in> set names"
proof (cases item)
  case (PDict rec)
  assume m: "item_matches None item = Inr True"
  show ?thesis
  proof (cases "map_of rec (ascii ''ccyNbr'')")
    case None
    with m PDict show ?thesis by (simp add: item_matches_def)
  next
    case (Some v)
    with m PDict show ?thesis by (cases v) (simp_all add: item_matches_def)
  qed
qed (simp_all add: item_matches_def)

lemma scan_items_None:
  "scan_items None items = Inr (Some q) \<Longrightarrow>
   \<exists>rec names. PDict rec \<in> set items \<and> map_of rec (ascii ''ccyNbr'') = Some (PList names)
      \<and> PNone \<in> set names"
proof (induction items)
  case Nil
  then show ?case by simp
next
  case (Cons item items)
  show ?case
  proof (cases "item_matches None item")
    case (Inl e)
    with Cons.prems show ?thesis by simp
  next
    case (Inr b)
    show ?thesis
    proof (cases b)
      case True
      with Inr item_matches_None[of item] show ?thesis by auto
    next
      case False
      with Inr Cons show ?thesis by auto
    qed
  qed
qed

lemma py_iter_dict_member:
  "py_iter b = Inr items \<Longrightarrow> PDict rec \<in> set items \<Longrightarrow> b = PList items"
  by (cases b) auto

lemma py_getitem_Inr:
  "py_getitem data key = Inr b \<Longrightarrow> \<exists>kvs. data = PDict kvs \<and> map_of kvs key = Some b"
  by (cases data) (auto split: option.splits)

lemma cmb_body_unsupported:
  assumes "currency_map c = None" and "cmb_body c u = Inr (Some q)"
  shows "\<exists>response kvs items rec names.
      u = Inr response \<and> json response = Inr (PDict kvs)
      \<and> map_of kvs (ascii ''body'') = Some (PList items)
      \<and> PDict rec \<in> set items
      \<and> map_of rec (ascii ''ccyNbr'') = Some (PList names) \<and> PNone \<in> set names"
proof -
  from assms(2) obtain response data b items where
    u: "u = Inr response" and j: "json response = Inr data"
    and g: "py_getitem data (ascii ''body'') = Inr b"
    and i: "py_iter b = Inr items"
    and s: "scan_items (currency_map c) items = Inr (Some q)"
    by (auto simp: cmb_body_def split: sum.splits if_splits bool.splits)
  from scan_items_None[of items q] s assms(1) obtain rec names where
    r: "PDict rec \<in> set items" "map_of rec (ascii ''ccyNbr'') = Some (PList names)"
       "PNone \<in> set names" by auto
  from py_iter_dict_member[OF i r(1)] have "b = PList items" .
  with py_getitem_Inr[OF g] u j r show ?thesis by blast
qed

section \<open>The bank quote providers\<close>

text \<open>
  Claim C1. Whatever the currency code and whatever the upstream does, each of
  \<^verbatim>\<open>get_boc_rates\<close> and \<^verbatim>\<open>get_cmb_rates\<close> returns a quote or the absent marker
  and raises nothing. In particular a transport failure, a failure of either parser
  and a status other than 200 give the absent marker.
\<close>

theorem bank_providers_never_raise:
  "(get_boc_rates currency_code upstream = Inr None
      \<or> (\<exists>q. get_boc_rates currency_code upstream = Inr (Some q)))
   \<and> (get_cmb_rates currency_code upstream = Inr None
      \<or> (\<exists>q. get_cmb_rates currency_code upstream = Inr (Some q)))
   \<and> get_boc_rates currency_code (Inl e) = Inr None
   \<and> get_cmb_rates currency_code (Inl e) = Inr None
   \<and> get_boc_rates currency_code (Inr (r\<lparr>soup := Inl e\<rparr>)) = Inr None
   \<and> get_cmb_rates currency_code (Inr (r\<lparr>json := Inl e\<rparr>)) = Inr None
   \<and> get_cmb_rates currency_code (Inr (r\<lparr>status_code := 404\<rparr>)) = Inr None"
proof -
  have "get_boc_rates currency_code upstream = Inr None
      \<or> (\<exists>q. get_boc_rates currency_code upstream = Inr (Some q))"
    by (cases "boc_body currency_code upstream")
       (auto simp: get_boc_rates_def try_except_def)
  moreover have "get_cmb_rates currency_code upstream = Inr None
      \<or> (\<exists>q. get_cmb_rates currency_code upstream = Inr (Some q))"
    by (cases "cmb_body currency_code upstream")
       (auto simp: get_cmb_rates_def try_except_def)
  moreover have "get_boc_rates currency_code (Inl e) = Inr None"
    by (simp add: get_boc_rates_def try_except_def boc_body_def)
  moreover have "get_cmb_rates currency_code (Inl e) = Inr None"
    by (simp add: get_cmb_rates_def try_except_def cmb_body_def)
  moreover have "get_boc_rates currency_code (Inr (r\<lparr>soup := Inl e\<rparr>)) = Inr None"
    by (simp add: get_boc_rates_def try_except_def boc_body_def)
  moreover have "get_cmb_rates currency_code (Inr (r\<lparr>json := Inl e\<rparr>)) = Inr None"
    by (simp add: get_cmb_rates_def try_except_def cmb_body_def)
  moreover have "get_cmb_rates currency_code (Inr (r\<lparr>status_code := 404\<rparr>)) = Inr None"
    by (simp add: get_cmb_rates_def try_except_def cmb_body_def)
  ultimately show ?thesis by blast
qed

text \<open>
  Claim C8. When the answer of Upstream B has a status other than 200, or its JSON
  decodes to a value with no \<^verbatim>\<open>body\<close> key, \<^verbatim>\<open>get_cmb_rates\<close> returns the absent
  marker, for every currency code.
\<close>

theorem cmb_no_body_absent:
  assumes "status_code response \<noteq> 200
     \<or> (json response = Inr data
        \<and> \<not> (\<exists>kvs. data = PDict kvs \<and> ascii ''body'' \<in> set (map fst kvs)))"
  shows "get_cmb_rates currency_code (Inr response) = Inr None"
  using assms
proof
  assume "status_code response \<noteq> 200"
  then show ?thesis by (simp add: get_cmb_rates_def try_except_def cmb_body_def)
next
  assume a: "json response = Inr data
        \<and> \<not> (\<exists>kvs. data = PDict kvs \<and> ascii ''body'' \<in> set (map fst kvs))"
  then have "cmb_body currency_code (Inr response) = Inr None
      \<or> (\<exists>e. cmb_body currency_code (Inr response) = Inl e)"
    by (cases data; cases "sublist (ascii ''body'') (case data of PStr s \<Rightarrow> s | _ \<Rightarrow> [])")
       (auto simp: cmb_body_def split: sum.splits bool.splits)
  then show ?thesis by (auto simp: get_cmb_rates_def try_except_def)
qed

theorem cmb_no_body_absent_witness:
  "get_cmb_rates (ascii ''EUR'')
     (Inr (json_answer (PDict [(ascii ''returnCode'', PStr (ascii ''SUC0000''))]))) = Inr None
   \<and> get_cmb_rates (ascii ''EUR'')
     (Inr \<lparr>status_code = 503, soup = Inl ParserRejectedMarkup, json = Inl JSONDecodeError\<rparr>)
     = Inr None"
proof -
  have "json (json_answer (PDict [(ascii ''returnCode'', PStr (ascii ''SUC0000''))]))
      = Inr (PDict [(ascii ''returnCode'', PStr (ascii ''SUC0000''))])
    \<and> \<not> (\<exists>kvs. PDict [(ascii ''returnCode'', PStr (ascii ''SUC0000''))] = PDict kvs
          \<and> ascii ''body'' \<in> set (map fst kvs))"
    by (simp add: json_answer_def ascii_def)
  then have "get_cmb_rates (ascii ''EUR'')
     (Inr (json_answer (PDict [(ascii ''returnCode'', PStr (ascii ''SUC0000''))]))) = Inr None"
    by (intro cmb_no_body_absent disjI2)
  moreover have "get_cmb_rates (ascii ''EUR'')
     (Inr \<lparr>status_code = 503, soup = Inl ParserRejectedMarkup, json = Inl JSONDecodeError\<rparr>)
     = Inr None"
    by (rule cmb_no_body_absent) simp
  ultimately show ?thesis by simp
qed

text \<open>
  Claim C3, as stated, fails: for a code outside the supported set the providers signal
  nothing. Here each provider is given the code \<^verbatim>\<open>XXX\<close> and an answer that lists the
  euro, and returns the absent marker.
\<close>

theorem unsupported_code_counterexample:
  "ascii ''XXX'' \<notin> supported
   \<and> get_boc_rates (ascii ''XXX'')
       (Inr (html_answer (page
          [table_row [[27431, 20803], ascii ''780'', ascii ''781'', ascii ''782'', ascii ''783'']])))
     = Inr None
   \<and> get_cmb_rates (ascii ''XXX'')
       (Inr (json_answer (PDict [(ascii ''body'', PList
          [PDict [(ascii ''ccyNbr'', PStr [27431, 20803]),
                  (ascii ''rthOfr'', PStr (ascii ''7.8'')),
                  (ascii ''rtcOfr'', PStr (ascii ''7.9''))]])])))
     = Inr None"
  by (simp add: run_simps supported_def)

text \<open>
  Claim C3, amended. For a code outside the supported set neither provider signals a
  failure. \<^verbatim>\<open>get_boc_rates\<close> returns the absent marker whatever the upstream does.
  \<^verbatim>\<open>get_cmb_rates\<close> returns the absent marker whenever no record of the \<^verbatim>\<open>body\<close>
  list has, as its name field, a list with \<^verbatim>\<open>null\<close> in it: a quote can only come from
  such a record, on which the test \<^verbatim>\<open>None in [None]\<close> holds.
\<close>

theorem unsupported_code_absent:
  assumes "currency_code \<notin> supported"
  shows "get_boc_rates currency_code upstream = Inr None
    \<and> (get_cmb_rates currency_code upstream' = Inr None
       \<or> (\<exists>q response kvs items rec names.
            get_cmb_rates currency_code upstream' = Inr (Some q)
            \<and> upstream' = Inr response \<and> json response = Inr (PDict kvs)
            \<and> map_of kvs (ascii ''body'') = Some (PList items)
            \<and> PDict rec \<in> set items
            \<and> map_of rec (ascii ''ccyNbr'') = Some (PList names) \<and> PNone \<in> set names))"
proof -
  have m: "currency_map currency_code = None"
    using assms by (simp add: currency_map_None)
  have "get_boc_rates currency_code upstream = Inr None"
    using m by (simp add: get_boc_rates_def try_except_def boc_body_def split: sum.splits)
  moreover have "get_cmb_rates currency_code upstream' = Inr None
       \<or> (\<exists>q response kvs items rec names.
            get_cmb_rates currency_code upstream' = Inr (Some q)
            \<and> upstream' = Inr response \<and> json response = Inr (PDict kvs)
            \<and> map_of kvs (ascii ''body'') = Some (PList items)
            \<and> PDict rec \<in> set items
            \<and> map_of rec (ascii ''ccyNbr'') = Some (PList names) \<and> PNone \<in> set names)"
  proof (cases "cmb_body currency_code upstream'")
    case (Inl e)
    then show ?thesis by (simp add: get_cmb_rates_def try_except_def)
  next
    case (Inr r)
    show ?thesis
    proof (cases r)
      case None
      with Inr show ?thesis by (simp add: get_cmb_rates_def try_except_def)
    next
      case (Some q)
      with Inr have b: "cmb_body currency_code upstream' = Inr (Some q)" by simp
      then have "get_cmb_rates currency_code upstream' = Inr (Some q)"
        by (simp add: get_cmb_rates_def try_except_def)
      with cmb_body_unsupported[OF m b] show ?thesis by blast
    qed
  qed
  ultimately show ?thesis by blast
qed

theorem unsupported_code_absent_witness:
  "ascii ''CHF'' \<notin> supported
   \<and> get_boc_rates (ascii ''CHF'')
       (Inr (html_answer (page
          [table_row [[32654, 20803], ascii ''700'', ascii ''701'', ascii ''702'', ascii ''703'']])))
     = Inr None
   \<and> get_cmb_rates (ascii ''CHF'')
       (Inr (json_answer (PDict [(ascii ''body'', PList
          [PDict [(ascii ''ccyNbr'', PStr [32654, 20803]),
                  (ascii ''rthOfr'', PStr (ascii ''7.10'')),
                  (ascii ''rtcOfr'', PStr (ascii ''7.12''))]])])))
     = Inr None"
proof -
  have c: "ascii ''CHF'' \<notin> supported"
    by (simp add: supported_def ascii_def)
  from unsupported_code_absent[OF c] have
    "get_boc_rates (ascii ''CHF'')
       (Inr (html_answer (page
          [table_row [[32654, 20803], ascii ''700'', ascii ''701'', ascii ''702'', ascii ''703'']])))
     = Inr None"
    by blast
  moreover have "get_cmb_rates (ascii ''CHF'')
       (Inr (json_answer (PDict [(ascii ''body'', PList
          [PDict [(ascii ''ccyNbr'', PStr [32654, 20803]),
                  (ascii ''rthOfr'', PStr (ascii ''7.10'')),
                  (ascii ''rtcOfr'', PStr (ascii ''7.12''))]])])))
     = Inr None"
    by (simp add: run_simps)
  ultimately show ?thesis using c by simp
qed

text \<open>
  Claim C7, as stated, fails on a row that has the name in its first column and fewer
  than five columns: reading the fourth column raises \<^verbatim>\<open>IndexError\<close>, which the
  \<^verbatim>\<open>except\<close> turns into the absent marker.
\<close>

theorem boc_short_row_counterexample:
  "first_cell_contains [27431, 20803] (table_row [[27431, 20803], ascii ''782.5''])
   \<and> document_rows (page [table_row [[27431, 20803], ascii ''782.5'']])
       = [table_row [[27431, 20803], ascii ''782.5'']]
   \<and> get_boc_rates (ascii ''EUR'')
       (Inr (html_answer (page [table_row [[27431, 20803], ascii ''782.5'']])))
     = Inr None"
  by (simp add: run_simps)

text \<open>
  Claim C7, amended. When the first row of the document whose first column contains the
  name of the requested currency has at least five columns, \<^verbatim>\<open>get_boc_rates\<close> returns
  a quote whose \<^verbatim>\<open>spot_sell\<close> is the stripped text of that row's fourth column and
  whose \<^verbatim>\<open>cash_sell\<close> is the stripped text of its fifth.
\<close>

theorem boc_quote_columns:
  assumes "currency_map currency_code = Some target_name"
    and "soup response = Inr doc"
    and "find (first_cell_contains target_name) (document_rows doc) = Some row"
    and "find_all row (ascii ''td'') = cols"
    and "5 \<le> length cols"
  shows "get_boc_rates currency_code (Inr response) =
     Inr (Some \<lparr>spot_sell = PStr (strip (get_text (cols ! 3))),
                 cash_sell = PStr (strip (get_text (cols ! 4)))\<rparr>)"
  using assms(3-5) by (simp add: get_boc_rates_find[OF assms(1,2)] row_quote_columns)

theorem boc_quote_columns_witness:
  "get_boc_rates (ascii ''USD'')
     (Inr (html_answer (page
        [Tag (ascii ''tr'') [Tag (ascii ''th'') [Text [32654, 20803]]],
         table_row [[27431, 20803], ascii ''780'', ascii ''775'', ascii ''785'', ascii ''786'',
                    ascii ''782''],
         table_row [[10, 32654, 20803, 32], ascii ''715.1'', ascii ''709.3'',
                    ascii '' 718.13 '', [10, 55, 49, 56, 46, 49, 52, 10], ascii ''716.2'']])))
   = Inr (Some \<lparr>spot_sell = PStr (ascii ''718.13''), cash_sell = PStr (ascii ''718.14'')\<rparr>)"
proof -
  have 1: "currency_map (ascii ''USD'') = Some [32654, 20803]"
    by (simp add: currency_map_def ascii_def)
  have 2: "soup (html_answer (page
        [Tag (ascii ''tr'') [Tag (ascii ''th'') [Text [32654, 20803]]],
         table_row [[27431, 20803], ascii ''780'', ascii ''775'', ascii ''785'', ascii ''786'',
                    ascii ''782''],
         table_row [[10, 32654, 20803, 32], ascii ''715.1'', ascii ''709.3'',
                    ascii '' 718.13 '', [10, 55, 49, 56, 46, 49, 52, 10], ascii ''716.2'']]))
     = Inr (page
        [Tag (ascii ''tr'') [Tag (ascii ''th'') [Text [32654, 20803]]],
         table_row [[27431, 20803], ascii ''780'', ascii ''775'', ascii ''785'', ascii ''786'',
                    ascii ''782''],
         table_row [[10, 32654, 20803, 32], ascii ''715.1'', ascii ''709.3'',
                    ascii '' 718.13 '', [10, 55, 49, 56, 46, 49, 52, 10], ascii ''716.2'']])"
    by (simp add: html_answer_def)
  have 3: "find (first_cell_contains [32654, 20803]) (document_rows (page
        [Tag (ascii ''tr'') [Tag (ascii ''th'') [Text [32654, 20803]]],
         table_row [[27431, 20803], ascii ''780'', ascii ''775'', ascii ''785'', ascii ''786'',
                    ascii ''782''],
         table_row [[10, 32654, 20803, 32], ascii ''715.1'', ascii ''709.3'',
                    ascii '' 718.13 '', [10, 55, 49, 56, 46, 49, 52, 10], ascii ''716.2'']]))
     = Some (table_row [[10, 32654, 20803, 32], ascii ''715.1'', ascii ''709.3'',
                    ascii '' 718.13 '', [10, 55, 49, 56, 46, 49, 52, 10], ascii ''716.2''])"
    by (simp add: run_simps)
  have 4: "find_all (table_row [[10, 32654, 20803, 32], ascii ''715.1'', ascii ''709.3'',
                    ascii '' 718.13 '', [10, 55, 49, 56, 46, 49, 52, 10], ascii ''716.2''])
        (ascii ''td'')
     = [cell [10, 32654, 20803, 32], cell (ascii ''715.1''), cell (ascii ''709.3''),
        cell (ascii '' 718.13 ''), cell [10, 55, 49, 56, 46, 49, 52, 10], cell (ascii ''716.2'')]"
    by (simp add: table_row_def cell_def find_all_def ascii_def)
  have 5: "5 \<le> length [cell [10, 32654, 20803, 32], cell (ascii ''715.1''),
        cell (ascii ''709.3''), cell (ascii '' 718.13 ''),
        cell [10, 55, 49, 56, 46, 49, 52, 10], cell (ascii ''716.2'')]"
    by simp
  from boc_quote_columns[OF 1 2 3 4 5] show ?thesis
    by (simp add: cell_def strip_def isspace_def ascii_def)
qed

text \<open>
  Claim C10, as stated, fails where the first row whose first cell contains the name
  has fewer than five cells: no quote is returned, neither from that row nor from the
  complete row that follows it.
\<close>

theorem boc_first_row_counterexample:
  "find (first_cell_contains [27431, 20803])
     (document_rows (page
        [table_row [[27431, 20803], ascii ''n/a''],
         table_row [[27431, 20803], ascii ''780'', ascii ''775'', ascii ''785'', ascii ''786'']]))
     = Some (table_row [[27431, 20803], ascii ''n/a''])
   \<and> get_boc_rates (ascii ''EUR'')
       (Inr (html_answer (page
        [table_row [[27431, 20803], ascii ''n/a''],
         table_row [[27431, 20803], ascii ''780'', ascii ''775'', ascii ''785'', ascii ''786'']])))
     = Inr None"
  by (simp add: run_simps)

text \<open>
  Claim C10, amended. \<^verbatim>\<open>get_boc_rates\<close> answers from the first row, in document order,
  whose first cell contains the name of the currency, and from that row alone: the quote
  extracted from it when it has at least five cells, the absent marker when it has
  fewer, and the absent marker when there is no such row. Rows after it are ignored:
  the answer is the same whatever follows.
\<close>

theorem boc_first_row_wins:
  assumes "currency_map currency_code = Some target_name"
    and "soup response = Inr doc"
  shows "get_boc_rates currency_code (Inr response) =
     (case find (first_cell_contains target_name) (document_rows doc) of
        None \<Rightarrow> Inr None
      | Some row \<Rightarrow>
          if 5 \<le> length (find_all row (ascii ''td''))
          then Inr (Some
            \<lparr>spot_sell = PStr (strip (get_text (find_all row (ascii ''td'') ! 3))),
             cash_sell = PStr (strip (get_text (find_all row (ascii ''td'') ! 4)))\<rparr>)
          else Inr None)
     \<and> (\<forall>pre row post.
          document_rows doc = pre @ row # post
          \<and> (\<forall>r \<in> set pre. \<not> first_cell_contains target_name r)
          \<and> first_cell_contains target_name row
          \<longrightarrow> get_boc_rates currency_code (Inr response) =
             (if 5 \<le> length (find_all row (ascii ''td''))
              then Inr (Some
                \<lparr>spot_sell = PStr (strip (get_text (find_all row (ascii ''td'') ! 3))),
                 cash_sell = PStr (strip (get_text (find_all row (ascii ''td'') ! 4)))\<rparr>)
              else Inr None))"
proof -
  have eq: "get_boc_rates currency_code (Inr response) =
     (case find (first_cell_contains target_name) (document_rows doc) of
        None \<Rightarrow> Inr None
      | Some row \<Rightarrow>
          if 5 \<le> length (find_all row (ascii ''td''))
          then Inr (Some
            \<lparr>spot_sell = PStr (strip (get_text (find_all row (ascii ''td'') ! 3))),
             cash_sell = PStr (strip (get_text (find_all row (ascii ''td'') ! 4)))\<rparr>)
          else Inr None)"
    by (simp add: get_boc_rates_find[OF assms] row_quote_columns split: option.splits)
  moreover have "get_boc_rates currency_code (Inr response) =
             (if 5 \<le> length (find_all row (ascii ''td''))
              then Inr (Some
                \<lparr>spot_sell = PStr (strip (get_text (find_all row (ascii ''td'') ! 3))),
                 cash_sell = PStr (strip (get_text (find_all row (ascii ''td'') ! 4)))\<rparr>)
              else Inr None)"
    if "document_rows doc = pre @ row # post"
      and "\<forall>r \<in> set pre. \<not> first_cell_contains target_name r"
      and "first_cell_contains target_name row" for pre row post
  proof -
    have "find (first_cell_contains target_name) (document_rows doc) = Some row"
      unfolding that(1) using that(2,3) by (rule find_first)
    then show ?thesis by (simp add: eq)
  qed
  ultimately show ?thesis by blast
qed

theorem boc_first_row_wins_witness:
  "get_boc_rates (ascii ''EUR'')
     (Inr (html_answer (page
        [table_row [[32654, 20803], ascii ''700'', ascii ''701'', ascii ''702'', ascii ''703''],
         table_row [[32, 27431, 20803, 10], ascii ''780'', ascii ''781'', ascii '' 782.5 '',
                    ascii ''783''],
         table_row [[27431, 20803], ascii ''1'', ascii ''2'', ascii ''3'', ascii ''4'']])))
   = Inr (Some \<lparr>spot_sell = PStr (ascii ''782.5''), cash_sell = PStr (ascii ''783'')\<rparr>)"
proof -
  have 1: "currency_map (ascii ''EUR'') = Some [27431, 20803]"
    by (simp add: currency_map_def ascii_def)
  have 2: "soup (html_answer (page
        [table_row [[32654, 20803], ascii ''700'', ascii ''701'', ascii ''702'', ascii ''703''],
         table_row [[32, 27431, 20803, 10], ascii ''780'', ascii ''781'', ascii '' 782.5 '',
                    ascii ''783''],
         table_row [[27431, 20803], ascii ''1'', ascii ''2'', ascii ''3'', ascii ''4'']]))
     = Inr (page
        [table_row [[32654, 20803], ascii ''700'', ascii ''701'', ascii ''702'', ascii ''703''],
         table_row [[32, 27431, 20803, 10], ascii ''780'', ascii ''781'', ascii '' 782.5 '',
                    ascii ''783''],
         table_row [[27431, 20803], ascii ''1'', ascii ''2'', ascii ''3'', ascii ''4'']])"
    by (simp add: html_answer_def)
  from boc_first_row_wins[OF 1 2] have "get_boc_rates (ascii ''EUR'')
     (Inr (html_answer (page
        [table_row [[32654, 20803], ascii ''700'', ascii ''701'', ascii ''702'', ascii ''703''],
         table_row [[32, 27431, 20803, 10], ascii ''780'', ascii ''781'', ascii '' 782.5 '',
                    ascii ''783''],
         table_row [[27431, 20803], ascii ''1'', ascii ''2'', ascii ''3'', ascii ''4'']]))) =
     (case find (first_cell_contains [27431, 20803]) (document_rows (page
        [table_row [[32654, 20803], ascii ''700'', ascii ''701'', ascii ''702'', ascii ''703''],
         table_row [[32, 27431, 20803, 10], ascii ''780'', ascii ''781'', ascii '' 782.5 '',
                    ascii ''783''],
         table_row [[27431, 20803], ascii ''1'', ascii ''2'', ascii ''3'', ascii ''4'']])) of
        None \<Rightarrow> Inr None
      | Some row \<Rightarrow>
          if 5 \<le> length (find_all row (ascii ''td''))
          then Inr (Some
            \<lparr>spot_sell = PStr (strip (get_text (find_all row (ascii ''td'') ! 3))),
             cash_sell = PStr (strip (get_text (find_all row (ascii ''td'') ! 4)))\<rparr>)
          else Inr None)"
    by (rule conjunct1)
  then show ?thesis
    by (simp add: cell_def table_row_def page_def ascii_def find_all_def strip_def
        isspace_def first_cell_contains_def document_rows_def sublist_code)
qed

text \<open>
  Claim C9, as stated, fails. In both lists the second record names the euro and lacks
  a rate field. In the first list the record before it has \<^verbatim>\<open>null\<close> as its name, the
  test on it raises \<^verbatim>\<open>TypeError\<close>, and the absent marker is returned. In the second
  list the record before it names the euro too and is complete, and its quote is
  returned with no placeholder in it.
\<close>

theorem cmb_placeholder_counterexample:
  "get_cmb_rates (ascii ''EUR'')
     (Inr (json_answer (PDict [(ascii ''body'', PList
        [PDict [(ascii ''ccyNbr'', PNone)],
         PDict [(ascii ''ccyNbr'', PStr [27431, 20803]),
                (ascii ''rtcOfr'', PStr (ascii ''7.9''))]])])))
     = Inr None
   \<and> get_cmb_rates (ascii ''EUR'')
     (Inr (json_answer (PDict [(ascii ''body'', PList
        [PDict [(ascii ''ccyNbr'', PStr [27431, 20803]),
                (ascii ''rthOfr'', PStr (ascii ''7.8'')),
                (ascii ''rtcOfr'', PStr (ascii ''7.9''))],
         PDict [(ascii ''ccyNbr'', PStr [27431, 20803]),
                (ascii ''rtcOfr'', PStr (ascii ''7.7''))]])])))
     = Inr (Some \<lparr>spot_sell = PStr (ascii ''7.8''), cash_sell = PStr (ascii ''7.9'')\<rparr>)"
  by (simp add: run_simps)

text \<open>
  Claim C9, amended. Let the answer of Upstream B have status 200 and decode to a dict
  whose \<^verbatim>\<open>body\<close> is a list, and let a record of that list have a name that contains
  the name of the requested currency, every record before it being one the test of
  line 64 passes over without raising. Then \<^verbatim>\<open>get_cmb_rates\<close> returns a quote made of
  that record: a rate field the record lacks is the text \<^verbatim>\<open>N/A\<close>, a rate field it has
  is its value.
\<close>

theorem cmb_placeholder:
  assumes "currency_map currency_code = Some target_name"
    and "status_code response = 200"
    and "json response = Inr (PDict kvs)"
    and "map_of kvs (ascii ''body'') = Some (PList (pre @ PDict rec # post))"
    and "\<forall>item \<in> set pre. item_matches (Some target_name) item = Inr False"
    and "map_of rec (ascii ''ccyNbr'') = Some (PStr name)"
    and "sublist target_name name"
  shows "get_cmb_rates currency_code (Inr response) =
     Inr (Some \<lparr>spot_sell = (case map_of rec (ascii ''rthOfr'') of
                               None \<Rightarrow> PStr (ascii ''N/A'') | Some v \<Rightarrow> v),
                 cash_sell = (case map_of rec (ascii ''rtcOfr'') of
                               None \<Rightarrow> PStr (ascii ''N/A'') | Some v \<Rightarrow> v)\<rparr>)"
proof -
  have k: "ascii ''body'' \<in> set (map fst kvs)"
    using assms(4) by (metis map_of_eq_None_iff option.distinct(1) set_map)
  have m: "item_matches (Some target_name) (PDict rec) = Inr True"
    using assms(6,7) by (simp add: item_matches_def)
  have "scan_items (Some target_name) (pre @ PDict rec # post) =
      (case item_quote (PDict rec) of Inl e \<Rightarrow> Inl e | Inr q \<Rightarrow> Inr (Some q))"
    using assms(5) m by (rule scan_items_first)
  then show ?thesis
    using assms(1-4) k
    by (simp add: get_cmb_rates_def try_except_def cmb_body_def item_quote_def)
qed

theorem cmb_placeholder_witness:
  "get_cmb_rates (ascii ''EUR'')
     (Inr (json_answer (PDict [(ascii ''body'', PList
        [PDict [(ascii ''ccyNbr'', PStr [32654, 20803]),
                (ascii ''rthOfr'', PStr (ascii ''7.10'')),
                (ascii ''rtcOfr'', PStr (ascii ''7.12''))],
         PDict [(ascii ''ccyNbr'', PStr [27431, 20803]),
                (ascii ''rtcOfr'', PStr (ascii ''7.9''))],
         PDict [(ascii ''ccyNbr'', PStr [27431, 20803])]])])))
   = Inr (Some \<lparr>spot_sell = PStr (ascii ''N/A''), cash_sell = PStr (ascii ''7.9'')\<rparr>)"
proof -
  have 1: "currency_map (ascii ''EUR'') = Some [27431, 20803]"
    by (simp add: currency_map_def ascii_def)
  have 2: "status_code (json_answer (PDict [(ascii ''body'', PList
        ([PDict [(ascii ''ccyNbr'', PStr [32654, 20803]),
                (ascii ''rthOfr'', PStr (ascii ''7.10'')),
                (ascii ''rtcOfr'', PStr (ascii ''7.12''))]]
         @ PDict [(ascii ''ccyNbr'', PStr [27431, 20803]),
                (ascii ''rtcOfr'', PStr (ascii ''7.9''))]
         # [PDict [(ascii ''ccyNbr'', PStr [27431, 20803])]]))])) = 200"
    by (simp add: json_answer_def)
  have 3: "json (json_answer (PDict [(ascii ''body'', PList
        ([PDict [(ascii ''ccyNbr'', PStr [32654, 20803]),
                (ascii ''rthOfr'', PStr (ascii ''7.10'')),
                (ascii ''rtcOfr'', PStr (ascii ''7.12''))]]
         @ PDict [(ascii ''ccyNbr'', PStr [27431, 20803]),
                (ascii ''rtcOfr'', PStr (ascii ''7.9''))]
         # [PDict [(ascii ''ccyNbr'', PStr [27431, 20803])]]))]))
     = Inr (PDict [(ascii ''body'', PList
        ([PDict [(ascii ''ccyNbr'', PStr [32654, 20803]),
                (ascii ''rthOfr'', PStr (ascii ''7.10'')),
                (ascii ''rtcOfr'', PStr (ascii ''7.12''))]]
         @ PDict [(ascii ''ccyNbr'', PStr [27431, 20803]),
                (ascii ''rtcOfr'', PStr (ascii ''7.9''))]
         # [PDict [(ascii ''ccyNbr'', PStr [27431, 20803])]]))])"
    by (simp add: json_answer_def)
  have 4: "map_of [(ascii ''body'', PList
        ([PDict [(ascii ''ccyNbr'', PStr [32654, 20803]),
                (ascii ''rthOfr'', PStr (ascii ''7.10'')),
                (ascii ''rtcOfr'', PStr (ascii ''7.12''))]]
         @ PDict [(ascii ''ccyNbr'', PStr [27431, 20803]),
                (ascii ''rtcOfr'', PStr (ascii ''7.9''))]
         # [PDict [(ascii ''ccyNbr'', PStr [27431, 20803])]]))] (ascii ''body'')
     = Some (PList
        ([PDict [(ascii ''ccyNbr'', PStr [32654, 20803]),
                (ascii ''rthOfr'', PStr (ascii ''7.10'')),
                (ascii ''rtcOfr'', PStr (ascii ''7.12''))]]
         @ PDict [(ascii ''ccyNbr'', PStr [27431, 20803]),
                (ascii ''rtcOfr'', PStr (ascii ''7.9''))]
         # [PDict [(ascii ''ccyNbr'', PStr [27431, 20803])]]))"
    by simp
  have 5: "\<forall>item \<in> set [PDict [(ascii ''ccyNbr'', PStr [32654, 20803]),
                (ascii ''rthOfr'', PStr (ascii ''7.10'')),
                (ascii ''rtcOfr'', PStr (ascii ''7.12''))]].
      item_matches (Some [27431, 20803]) item = Inr False"
    by (simp add: item_matches_def ascii_def sublist_code)
  have 6: "map_of [(ascii ''ccyNbr'', PStr [27431, 20803]),
                (ascii ''rtcOfr'', PStr (ascii ''7.9''))] (ascii ''ccyNbr'')
      = Some (PStr [27431, 20803])"
    by simp
  have 7: "sublist [27431, 20803] [27431, 20803::nat]"
    by simp
  from cmb_placeholder[OF 1 2 3 4 5 6 7] show ?thesis
    by (simp add: ascii_def)
qed

section \<open>The fetch of the price history\<close>

text \<open>
  Claim C4 does not hold of the code. When the library call raises, \<^verbatim>\<open>get_history\<close>
  raises the same exception: it has no handler, unlike the two bank providers. The
  exception ends the run at line 110, before either bank is asked, so no live data is
  made: not an empty history, and not absent bank quotes.
\<close>

theorem history_failure_propagates:
  "get_history
     \<lparr>yf_history = (\<lambda>ticker period interval. Inl YFException),
      boc_site = Inl Timeout, cmb_api = Inl Timeout\<rparr>
     (ascii ''EURCNY=X'') (ascii ''5d'') (ascii ''2m'') = Inl YFException
   \<and> live_data
     \<lparr>yf_history = (\<lambda>ticker period interval. Inl YFException),
      boc_site = Inl Timeout, cmb_api = Inl Timeout\<rparr>
     (ascii ''EUR'') (ascii ''48h'') = Inl YFException
   \<and> live_data
     \<lparr>yf_history = (\<lambda>ticker period interval. Inr []),
      boc_site = Inl Timeout, cmb_api = Inl Timeout\<rparr>
     (ascii ''EUR'') (ascii ''48h'')
     = Inr \<lparr>history = [], boc_rate = None, cmb_rate = None\<rparr>"
  by (simp add: get_history_def live_data_def currencies_def time_ranges_def ascii_def
      get_boc_rates_def boc_body_def get_cmb_rates_def cmb_body_def try_except_def)

end
